theory Spec2Isabelle
  imports Complex_Main
begin

section \<open>Tensors, dtypes and engine errors\<close>

text \<open>
  The module is TensorFlow graph code over floating-point tensors. The embedding keeps
  the structure of every tensor operation the source performs (broadcasting, axis
  reductions, shape and dtype checks) and idealises the entries of a float tensor as
  real numbers: rounding is not modelled. A rank-1 tensor is a list, a rank-2 tensor a
  list of rows, a rank-3 tensor a list of matrices, each tagged with its dtype.
\<close>

datatype dtype = float16 | float32 | float64

datatype error = DtypeError | ShapeError | VariableError | NonFinite

datatype 'a tensor = Tensor (dtype: dtype) (val: 'a)

type_synonym vec = "real list"
type_synonym mat = "real list list"
type_synonym ten3 = "real list list list"

text \<open>
  Nested lists can be ragged, tensors cannot: \<open>has_shape2 x B T\<close> and
  \<open>has_shape3 x B T U\<close> say that \<open>x\<close> is a tensor of shape \<open>[B, T]\<close> and
  \<open>[B, T, U]\<close>.
\<close>

definition has_shape2 :: "mat \<Rightarrow> nat \<Rightarrow> nat \<Rightarrow> bool" where
  "has_shape2 x B T = (length x = B \<and> (\<forall>r \<in> set x. length r = T))"

definition has_shape3 :: "ten3 \<Rightarrow> nat \<Rightarrow> nat \<Rightarrow> nat \<Rightarrow> bool" where
  "has_shape3 x B T U =
     (length x = B \<and> (\<forall>m \<in> set x. length m = T \<and> (\<forall>r \<in> set m. length r = U)))"

text \<open>Raising is the left injection; \<open>bindE\<close> runs the rest of a block on a result.\<close>

definition bindE :: "error + 'a \<Rightarrow> ('a \<Rightarrow> error + 'b) \<Rightarrow> error + 'b" where
  "bindE x f = (case x of Inl e \<Rightarrow> Inl e | Inr a \<Rightarrow> f a)"

fun sequence :: "(error + 'a) list \<Rightarrow> error + 'a list" where
  "sequence [] = Inr []"
| "sequence (x # xs) =
     (case x of
        Inl e \<Rightarrow> Inl e
      | Inr y \<Rightarrow> (case sequence xs of Inl e \<Rightarrow> Inl e | Inr ys \<Rightarrow> Inr (y # ys)))"

text \<open>
  Broadcasting along one axis, as the engine does it for a binary operation: two axes of
  equal size are combined position by position, an axis of size 1 is repeated along the
  other one, anything else is a shape error. \<open>g\<close> combines the entries of the axis, which
  are scalars on the innermost axis and sub-tensors above it.
\<close>

definition bc :: "('a \<Rightarrow> 'b \<Rightarrow> error + 'c) \<Rightarrow> 'a list \<Rightarrow> 'b list \<Rightarrow> error + 'c list" where
  "bc g xs ys =
     (if length xs = length ys then sequence (map2 g xs ys)
      else if length ys = 1 then sequence (map (\<lambda>x. g x (hd ys)) xs)
      else if length xs = 1 then sequence (map (\<lambda>y. g (hd xs) y) ys)
      else Inl ShapeError)"

definition bc3 :: "(real \<Rightarrow> real \<Rightarrow> error + real) \<Rightarrow> ten3 \<Rightarrow> ten3 \<Rightarrow> error + ten3" where
  "bc3 f = bc (bc (bc f))"

text \<open>
  A binary operation on tagged tensors: operands of different dtypes are refused by the
  engine (there is no implicit conversion; the spec: "shape/rank/dtype mismatches are
  detected and reported by the underlying tensor-execution engine as generic runtime
  errors"), then the shapes are broadcast.
\<close>

definition binop3 :: "(real \<Rightarrow> real \<Rightarrow> error + real) \<Rightarrow> ten3 tensor \<Rightarrow> ten3 tensor \<Rightarrow> error + ten3 tensor" where
  "binop3 f a b =
     (if dtype a \<noteq> dtype b then Inl DtypeError
      else bindE (bc3 f (val a) (val b)) (\<lambda>r. Inr (Tensor (dtype a) r)))"

definition tf_add :: "ten3 tensor \<Rightarrow> ten3 tensor \<Rightarrow> error + ten3 tensor" where
  "tf_add = binop3 (\<lambda>x y. Inr (x + y))"

definition tf_mul :: "ten3 tensor \<Rightarrow> ten3 tensor \<Rightarrow> error + ten3 tensor" where
  "tf_mul = binop3 (\<lambda>x y. Inr (x * y))"

definition tf_tanh :: "ten3 tensor \<Rightarrow> ten3 tensor" where
  "tf_tanh a = Tensor (dtype a) (map (map (map tanh)) (val a))"

definition reduce_sum_axis2 :: "ten3 tensor \<Rightarrow> mat tensor" where
  "reduce_sum_axis2 a = Tensor (dtype a) (map (map sum_list) (val a))"

text \<open>A rank-1 tensor meets a rank-3 one as shape \<open>[1, 1, n]\<close>.\<close>

definition as_rank3 :: "vec tensor \<Rightarrow> ten3 tensor" where
  "as_rank3 v = Tensor (dtype v) [[val v]]"

section \<open>The score function\<close>

text \<open>
  \<^verbatim>\<open>_location_sensitive_score(W_query, W_fil, W_keys)\<close> (the names of the module's
  private functions lose their leading underscore here). The call
  \<^verbatim>\<open>tf.get_variable('v_a', shape=[num_units], dtype=tf.float32)\<close> hands back the
  scoring vector of the enclosing variable scope; the embedding takes the values of that
  variable as the argument \<open>v_a\<close>. Its dtype is the literal \<open>float32\<close> of the call, and
  the requested shape \<open>[num_units]\<close>, read from the trailing axis of \<open>W_query\<close>, is
  checked against it: \<open>trailing_is (length v_a)\<close> says that \<open>num_units\<close> is the
  length of \<open>v_a\<close>. A trailing axis of size 0 is falsy in
  \<^verbatim>\<open>W_query.shape[-1].value or array_ops.shape(W_query)[-1]\<close>: \<open>num_units\<close> is then
  a tensor instead of a number and \<^verbatim>\<open>tf.get_variable\<close> raises. The local \<open>dtype\<close>
  of the source is bound and never read.
\<close>

definition trailing_is :: "nat \<Rightarrow> ten3 \<Rightarrow> bool" where
  "trailing_is n x = (\<forall>m \<in> set x. \<forall>r \<in> set m. length r = n)"

definition get_variable_v_a :: "vec \<Rightarrow> ten3 tensor \<Rightarrow> error + vec tensor" where
  "get_variable_v_a v_a W_query =
     (if trailing_is (length v_a) (val W_query)
      then (if length v_a = 0 then Inl VariableError else Inr (Tensor float32 v_a))
      else Inl ShapeError)"

definition location_sensitive_score ::
  "vec \<Rightarrow> ten3 tensor \<Rightarrow> ten3 tensor \<Rightarrow> ten3 tensor \<Rightarrow> error + mat tensor" where
  "location_sensitive_score v_a W_query W_fil W_keys =
     bindE (get_variable_v_a v_a W_query) (\<lambda>v.
     bindE (tf_add W_keys W_query) (\<lambda>kq.
     bindE (tf_add kq W_fil) (\<lambda>s.
     bindE (tf_mul (as_rank3 v) (tf_tanh s)) (\<lambda>p.
     Inr (reduce_sum_axis2 p)))))"

section \<open>Normalization functions\<close>

text \<open>
  The energies handed to a normalization function have passed the score mask of the
  base class (below), which overwrites masked positions with the mask value. \<open>NegInf\<close>
  is that value; every other score is a real number. The exponential and the logistic
  function of the mask value are 0.
\<close>

datatype score = NegInf | Fin real

type_synonym smat = "score list list"

definition sigmoid :: "real \<Rightarrow> real" where
  "sigmoid x = 1 / (1 + exp (- x))"

fun sigmoid_score :: "score \<Rightarrow> real" where
  "sigmoid_score NegInf = 0"
| "sigmoid_score (Fin x) = sigmoid x"

fun exp_score :: "score \<Rightarrow> real" where
  "exp_score NegInf = 0"
| "exp_score (Fin x) = exp x"

definition tf_sigmoid :: "smat tensor \<Rightarrow> mat tensor" where
  "tf_sigmoid e = Tensor (dtype e) (map (map sigmoid_score) (val e))"

definition tf_exp :: "smat tensor \<Rightarrow> mat tensor" where
  "tf_exp e = Tensor (dtype e) (map (map exp_score) (val e))"

text \<open>\<^verbatim>\<open>tf.reduce_sum(x, axis=-1, keepdims=True)\<close>: shape \<open>[batch, n]\<close> to \<open>[batch, 1]\<close>.\<close>

definition reduce_sum_keepdims :: "mat tensor \<Rightarrow> mat tensor" where
  "reduce_sum_keepdims a = Tensor (dtype a) (map (\<lambda>row. [sum_list row]) (val a))"

text \<open>
  A quotient whose divisor is 0 is not a real number (the engine produces an infinity
  or a NaN there and goes on); the embedding reports it as \<open>NonFinite\<close> instead of
  giving it a value.
\<close>

definition fdiv :: "real \<Rightarrow> real \<Rightarrow> error + real" where
  "fdiv x y = (if y = 0 then Inl NonFinite else Inr (x / y))"

definition tf_div :: "mat tensor \<Rightarrow> mat tensor \<Rightarrow> error + mat tensor" where
  "tf_div a b =
     (if dtype a \<noteq> dtype b then Inl DtypeError
      else bindE (bc (bc fdiv) (val a) (val b)) (\<lambda>r. Inr (Tensor (dtype a) r)))"

text \<open>\<^verbatim>\<open>_smoothing_normalization(e)\<close>.\<close>

definition smoothing_normalization :: "smat tensor \<Rightarrow> error + mat tensor" where
  "smoothing_normalization e = tf_div (tf_sigmoid e) (reduce_sum_keepdims (tf_sigmoid e))"

text \<open>
  The logistic function above is the real one: strictly positive and exact. The engine's
  \<^verbatim>\<open>tf.nn.sigmoid\<close> is a float32 function, which rounds and which underflows to 0 on
  very negative energies. Where a claim is about the values of the alignment and not
  about the formula, the engine's function is a parameter \<open>sg\<close> of the normalization,
  of which \<open>engine_sigmoid_ok\<close> says what is used: it sends the mask value to 0 and has
  its values between 0 and 1. The real logistic function is one such function;
  \<open>float32_sigmoid\<close> is another, with the underflow written out (\<open>exp (-104)\<close> is
  below half the smallest positive float32, \<open>2 ^ -149\<close>) and rounding left out.
\<close>

definition tf_sigmoid_with :: "(score \<Rightarrow> real) \<Rightarrow> smat tensor \<Rightarrow> mat tensor" where
  "tf_sigmoid_with sg e = Tensor (dtype e) (map (map sg) (val e))"

definition smoothing_with :: "(score \<Rightarrow> real) \<Rightarrow> smat tensor \<Rightarrow> error + mat tensor" where
  "smoothing_with sg e =
     tf_div (tf_sigmoid_with sg e) (reduce_sum_keepdims (tf_sigmoid_with sg e))"

definition engine_sigmoid_ok :: "(score \<Rightarrow> real) \<Rightarrow> bool" where
  "engine_sigmoid_ok sg = (sg NegInf = 0 \<and> (\<forall>s. 0 \<le> sg s \<and> sg s \<le> 1))"

fun float32_sigmoid :: "score \<Rightarrow> real" where
  "float32_sigmoid NegInf = 0"
| "float32_sigmoid (Fin x) = (if x \<le> - 104 then 0 else sigmoid x)"

text \<open>
  Modelled from the spec: the softmax of the tensor library, which the base class uses
  when no normalization function is given ("standard normalized-exponential over the
  source_length axis").
\<close>

definition softmax :: "smat tensor \<Rightarrow> error + mat tensor" where
  "softmax e = tf_div (tf_exp e) (reduce_sum_keepdims (tf_exp e))"

section \<open>Layers\<close>

text \<open>
  Modelled from the spec: the library's layers
  \<^verbatim>\<open>tf.layers.Dense(units, use_bias=False)\<close> ("a bias-free linear projection") and
  \<^verbatim>\<open>tf.layers.Conv1D(filters, kernel_size, padding='same', use_bias=False)\<close> ("a
  same-length 1-D convolution with \<open>attention_filters\<close> output channels and kernel width
  \<open>attention_kernel\<close>, no bias"). A layer owns a trainable kernel; the embedding holds
  the kernel's values in the layer. The hyperparameters come from the module
  \<^verbatim>\<open>hparams\<close>, which is not part of the sources and is taken as a parameter.
\<close>

record hparams =
  attention_filters :: nat
  attention_kernel :: nat

record dense =
  units :: nat
  dense_kernel :: "mat tensor"

record conv1d =
  filters :: nat
  kernel_size :: nat
  conv_kernel :: "ten3 tensor"

text \<open>
  One input vector through a dense kernel of shape \<open>[length x, units]\<close>. On a rank-2
  input the layer casts the input to its own dtype before the product; on a rank-3
  input it contracts input and kernel as they are, and the engine refuses operands of
  different dtypes.
\<close>

definition dense_vec :: "dense \<Rightarrow> vec \<Rightarrow> error + vec" where
  "dense_vec l x =
     (let W = val (dense_kernel l) in
      if length W = length x \<and> (\<forall>r \<in> set W. length r = units l)
      then Inr (map (\<lambda>u. sum_list (map2 (\<lambda>xi r. xi * r ! u) x W)) [0..<units l])
      else Inl ShapeError)"

definition dense_apply2 :: "dense \<Rightarrow> mat tensor \<Rightarrow> error + mat tensor" where
  "dense_apply2 l x =
     (let inputs = Tensor (dtype (dense_kernel l)) (val x) in
      bindE (sequence (map (dense_vec l) (val inputs))) (\<lambda>r. Inr (Tensor (dtype inputs) r)))"

definition dense_apply3 :: "dense \<Rightarrow> ten3 tensor \<Rightarrow> error + ten3 tensor" where
  "dense_apply3 l x =
     (if dtype x \<noteq> dtype (dense_kernel l) then Inl DtypeError
      else bindE (sequence (map (\<lambda>m. sequence (map (dense_vec l) m)) (val x)))
             (\<lambda>r. Inr (Tensor (dtype x) r)))"

text \<open>
  One batch row (a list of positions, each a list of channels) through a convolution
  kernel of shape \<open>[kernel_size, channels, filters]\<close> with stride 1. Padding
  \<open>'same'\<close> keeps the length: \<open>kernel_size - 1\<close> zero positions are added, the smaller
  half in front.
\<close>

definition tap :: "mat \<Rightarrow> nat \<Rightarrow> nat \<Rightarrow> nat \<Rightarrow> real" where
  "tap xs pad p c = (if pad \<le> p \<and> p - pad < length xs then xs ! (p - pad) ! c else 0)"

definition conv_row :: "conv1d \<Rightarrow> mat \<Rightarrow> error + mat" where
  "conv_row l xs =
     (let W = val (conv_kernel l); K = kernel_size l; pad = (K - 1) div 2 in
      if K = 0 \<or> length W \<noteq> K then Inl ShapeError
      else let C = length (hd W) in
        if (\<forall>w \<in> set W. length w = C \<and> (\<forall>r \<in> set w. length r = filters l))
           \<and> (\<forall>x \<in> set xs. length x = C)
        then Inr (map (\<lambda>t. map (\<lambda>f.
               sum_list (map (\<lambda>k. sum_list (map (\<lambda>c. tap xs pad (t + k) c * W ! k ! c ! f)
                 [0..<C])) [0..<K])) [0..<filters l]) [0..<length xs])
        else Inl ShapeError)"

definition conv1d_apply :: "conv1d \<Rightarrow> ten3 tensor \<Rightarrow> error + ten3 tensor" where
  "conv1d_apply l x =
     (if dtype x \<noteq> dtype (conv_kernel l) then Inl DtypeError
      else bindE (sequence (map (conv_row l) (val x))) (\<lambda>r. Inr (Tensor (dtype x) r)))"

definition expand_dims_1 :: "mat tensor \<Rightarrow> ten3 tensor" where
  "expand_dims_1 a = Tensor (dtype a) (map (\<lambda>r. [r]) (val a))"

definition expand_dims_2 :: "mat tensor \<Rightarrow> ten3 tensor" where
  "expand_dims_2 a = Tensor (dtype a) (map (map (\<lambda>x. [x])) (val a))"

section \<open>The attention mechanism\<close>

text \<open>
  The learned kernels the layers of one mechanism hold: the query and memory
  projections of the base class, the location convolution and the location projection
  (a float32 layer by its constructor's \<^verbatim>\<open>dtype=tf.float32\<close>).
\<close>

record kernels =
  W_query_layer :: "mat tensor"
  W_memory_layer :: "mat tensor"
  W_location_convolution :: "ten3 tensor"
  W_location_layer :: mat

text \<open>What \<^verbatim>\<open>__call__\<close> reads of the base class \<^verbatim>\<open>BahdanauAttention\<close>.\<close>

record bahdanau =
  num_units :: nat
  mechanism_name :: string
  query_layer :: "dense option"
  memory_layer :: "dense option"
  values_of :: "ten3 tensor"
  keys :: "ten3 tensor"
  probability_fn :: "mat tensor \<Rightarrow> mat tensor \<Rightarrow> error + mat tensor"

record mechanism = bahdanau +
  location_convolution :: conv1d
  location_layer :: dense

text \<open>
  The base class \<^verbatim>\<open>BahdanauAttention\<close> belongs to the sequence library and is not
  part of the repository; what the mechanism inherits from it is modelled from the spec.
\<close>

definition sequence_mask :: "nat \<Rightarrow> nat \<Rightarrow> bool list" where
  "sequence_mask L maxlen = map (\<lambda>j. j < L) [0..<maxlen]"

text \<open>
  Modelled from the spec: the score mask of the base class. "Positions beyond a row's
  valid length are excluded from normalization / masked to zero influence": a masked
  score is the value \<open>NegInf\<close>, which both normalizations send to 0.
\<close>

definition maybe_mask_score :: "mat tensor \<Rightarrow> nat list option \<Rightarrow> error + smat tensor" where
  "maybe_mask_score s memory_sequence_length =
     (case memory_sequence_length of
        None \<Rightarrow> Inr (Tensor (dtype s) (map (map Fin) (val s)))
      | Some lens \<Rightarrow>
          if length lens \<noteq> length (val s) then Inl ShapeError
          else Inr (Tensor (dtype s)
                 (map2 (\<lambda>L row. map2 (\<lambda>keep x. if keep then Fin x else NegInf)
                                  (sequence_mask L (length row)) row) lens (val s))))"

text \<open>
  Modelled from the spec: the memory mask of the base class. The source's docstring:
  "the memory tensor rows are masked with zeros for values past the respective sequence
  lengths".
\<close>

definition prepare_memory :: "ten3 tensor \<Rightarrow> nat list option \<Rightarrow> error + ten3 tensor" where
  "prepare_memory memory memory_sequence_length =
     (case memory_sequence_length of
        None \<Rightarrow> Inr memory
      | Some lens \<Rightarrow>
          if length lens \<noteq> length (val memory) then Inl ShapeError
          else Inr (Tensor (dtype memory)
                 (map2 (\<lambda>L m. map2 (\<lambda>keep r. if keep then r else map (\<lambda>_. 0) r)
                                (sequence_mask L (length m)) m) lens (val memory))))"

text \<open>
  Modelled from the spec: the constructor of the base class. The key projection is
  "computed once per memory sequence"; without a normalization function the exclusive
  one (softmax) is used; the normalization is called with the energy and the previous
  alignment ("the call contract always passes it"), and neither variant reads the
  latter.
\<close>

definition bahdanau_init ::
  "kernels \<Rightarrow> nat \<Rightarrow> ten3 tensor \<Rightarrow> nat list option \<Rightarrow> (smat tensor \<Rightarrow> error + mat tensor) option
   \<Rightarrow> string \<Rightarrow> error + bahdanau" where
  "bahdanau_init ks n memory memory_sequence_length prob_fn name =
     (let pf = (case prob_fn of None \<Rightarrow> softmax | Some f \<Rightarrow> f);
          ql = \<lparr>units = n, dense_kernel = W_query_layer ks\<rparr>;
          ml = \<lparr>units = n, dense_kernel = W_memory_layer ks\<rparr>
      in bindE (prepare_memory memory memory_sequence_length) (\<lambda>vs.
         bindE (dense_apply3 ml vs) (\<lambda>ky.
         Inr \<lparr>num_units = n, mechanism_name = name,
              query_layer = Some ql, memory_layer = Some ml,
              values_of = vs, keys = ky,
              probability_fn = (\<lambda>s prev. bindE (maybe_mask_score s memory_sequence_length) pf)\<rparr>)))"

text \<open>
  \<^verbatim>\<open>LocationSensitiveAttention.__init__\<close>. The first argument is the engine's logistic
  function, which \<^verbatim>\<open>_smoothing_normalization\<close> calls.
\<close>

definition init ::
  "(score \<Rightarrow> real) \<Rightarrow> hparams \<Rightarrow> kernels \<Rightarrow> nat \<Rightarrow> ten3 tensor \<Rightarrow> nat list option \<Rightarrow> bool
   \<Rightarrow> string \<Rightarrow> error + mechanism" where
  "init sg hp ks n memory memory_sequence_length smoothing name =
     (let normalization_function = (if smoothing = True then Some (smoothing_with sg) else None)
      in bindE (bahdanau_init ks n memory memory_sequence_length normalization_function name)
           (\<lambda>base. Inr (bahdanau.extend base
              \<lparr>location_convolution =
                 \<lparr>filters = attention_filters hp, kernel_size = attention_kernel hp,
                  conv_kernel = W_location_convolution ks\<rparr>,
               location_layer = \<lparr>units = n, dense_kernel = Tensor float32 (W_location_layer ks)\<rparr>\<rparr>)))"

text \<open>
  \<^verbatim>\<open>LocationSensitiveAttention.__call__(query, state)\<close>; \<open>v_a\<close> is the scoring vector
  the score function finds in its variable scope. The variable scope the body runs in
  names the variables of the graph and computes nothing; it has no counterpart here.
\<close>

definition call ::
  "mechanism \<Rightarrow> vec \<Rightarrow> mat tensor \<Rightarrow> mat tensor \<Rightarrow> error + (mat tensor \<times> mat tensor)" where
  "call self v_a query state =
     (let previous_alignments = state in
      bindE (case query_layer self of Some l \<Rightarrow> dense_apply2 l query | None \<Rightarrow> Inr query)
        (\<lambda>processed_query.
      let processed_query = expand_dims_1 processed_query;
          expanded_alignments = expand_dims_2 previous_alignments in
      bindE (conv1d_apply (location_convolution self) expanded_alignments) (\<lambda>f.
      bindE (dense_apply3 (location_layer self) f) (\<lambda>processed_location_features.
      bindE (location_sensitive_score v_a processed_query processed_location_features (keys self))
        (\<lambda>energy.
      bindE (probability_fn self energy previous_alignments) (\<lambda>alignments.
      let next_state = alignments in
      Inr (alignments, next_state)))))))"

section \<open>Variable scopes\<close>








section \<open>Auxiliary notions for the proofs\<close>

text \<open>A rank-3 tensor given by its entries.\<close>

abbreviation tab3 :: "nat \<Rightarrow> nat \<Rightarrow> nat \<Rightarrow> (nat \<Rightarrow> nat \<Rightarrow> nat \<Rightarrow> real) \<Rightarrow> ten3" where
  "tab3 B T U h \<equiv> map (\<lambda>b. map (\<lambda>t. map (\<lambda>k. h b t k) [0..<U]) [0..<T]) [0..<B]"

text \<open>
  Declared memory lengths that fit a batch of \<open>B\<close> rows: one length per row, each at
  least 1 (a row without a valid position has no alignment).
\<close>

definition lengths_ok :: "nat list option \<Rightarrow> nat \<Rightarrow> bool" where
  "lengths_ok msl B =
     (case msl of None \<Rightarrow> True | Some lens \<Rightarrow> length lens = B \<and> (\<forall>L \<in> set lens. 0 < L))"

text \<open>Dividing every entry of a row by the sum of the row.\<close>

definition row_div :: "real list \<Rightarrow> error + real list" where
  "row_div row = sequence (map (\<lambda>x. fdiv x (sum_list row)) row)"

section \<open>Example inputs\<close>

text \<open>
  One batch row, one unit, one filter; the location convolution passes its input through.
  The examples instantiate the theorems below.
\<close>

definition example_hparams :: hparams where
  "example_hparams = \<lparr>attention_filters = 1, attention_kernel = 3\<rparr>"

definition example_kernels :: kernels where
  "example_kernels =
     \<lparr>W_query_layer = Tensor float32 [[1]], W_memory_layer = Tensor float32 [[1]],
      W_location_convolution = Tensor float32 [[[0]], [[1]], [[0]]],
      W_location_layer = [[1]]\<rparr>"

definition example_memory :: "ten3 tensor" where
  "example_memory = Tensor float32 [[[1], [2]]]"

definition example_query :: "mat tensor" where
  "example_query = Tensor float32 [[1]]"

definition example_single_memory :: "ten3 tensor" where
  "example_single_memory = Tensor float32 [[[1]]]"

definition example_single_state :: "mat tensor" where
  "example_single_state = Tensor float32 [[1]]"

definition example_state :: "mat tensor" where
  "example_state = Tensor float32 [[0, 1]]"

definition example_query_float64 :: "mat tensor" where
  "example_query_float64 = Tensor float64 [[1]]"




section \<open>Auxiliary lemmas\<close>

lemma sequence_map_Inr: "sequence (map (\<lambda>i. Inr (h i)) xs) = Inr (map h xs)"
  by (induction xs) auto

lemma sequence_Inr_iff: "sequence xs = Inr ys \<longleftrightarrow> xs = map Inr ys"
proof (induction xs arbitrary: ys)
  case Nil
  then show ?case by auto
next
  case (Cons x xs)
  show ?case
  proof (cases x)
    case (Inl e)
    then show ?thesis by (cases ys) auto
  next
    case (Inr y)
    show ?thesis
    proof (cases "sequence xs")
      case (Inl e)
      then have "\<And>zs. xs \<noteq> map Inr zs" using Cons.IH by auto
      with Inl Inr show ?thesis by (cases ys) auto
    next
      case r: (Inr zs)
      then have "xs = map Inr zs" using Cons.IH by simp
      with r Inr show ?thesis by (cases ys) (auto simp: inj_map_eq_map)
    qed
  qed
qed

lemma bc_same:
  assumes "length xs = length ys" and "\<And>i. i < length xs \<Longrightarrow> g (xs ! i) (ys ! i) = Inr (h i)"
  shows "bc g xs ys = Inr (map h [0..<length xs])"
proof -
  have "map2 g xs ys = map (\<lambda>i. Inr (h i)) [0..<length xs]"
    using assms by (auto intro!: nth_equalityI)
  then show ?thesis using assms(1) by (simp add: bc_def sequence_map_Inr)
qed

lemma bc_right1:
  assumes "\<And>i. i < length xs \<Longrightarrow> g (xs ! i) y = Inr (h i)"
  shows "bc g xs [y] = Inr (map h [0..<length xs])"
proof (cases "length xs = 1")
  case True
  then show ?thesis using assms by (intro bc_same[where ys="[y]", simplified]) auto
next
  case False
  have "map (\<lambda>x. g x y) xs = map (\<lambda>i. Inr (h i)) [0..<length xs]"
    using assms by (auto intro!: nth_equalityI)
  then show ?thesis using False by (simp add: bc_def sequence_map_Inr)
qed

lemma bc_left1:
  assumes "\<And>i. i < length ys \<Longrightarrow> g x (ys ! i) = Inr (h i)"
  shows "bc g [x] ys = Inr (map h [0..<length ys])"
proof (cases "length ys = 1")
  case True
  then show ?thesis using assms bc_same[of "[x]" ys g h] by auto
next
  case False
  have "map (\<lambda>y. g x y) ys = map (\<lambda>i. Inr (h i)) [0..<length ys]"
    using assms by (auto intro!: nth_equalityI)
  then show ?thesis using False by (simp add: bc_def sequence_map_Inr)
qed

lemma has_shape3_tab3: "has_shape3 (tab3 B T U h) B T U"
  by (auto simp: has_shape3_def)

lemma has_shape3_nth:
  assumes "has_shape3 x B T U" "b < B"
  shows "length (x ! b) = T" and "t < T \<Longrightarrow> length (x ! b ! t) = U"
proof -
  have m: "x ! b \<in> set x" using assms by (simp add: has_shape3_def)
  then show len: "length (x ! b) = T" using assms by (simp add: has_shape3_def)
  show "length (x ! b ! t) = U" if "t < T"
  proof -
    have "x ! b ! t \<in> set (x ! b)" using that len by simp
    with m assms(1) show ?thesis unfolding has_shape3_def by blast
  qed
qed

lemma bc_vec:
  assumes "length xs = U" "length ys = U"
  shows "bc (\<lambda>a b. Inr (f a b)) xs ys = Inr (map (\<lambda>k. f (xs ! k) (ys ! k)) [0..<U])"
  using bc_same[of xs ys "\<lambda>a b. Inr (f a b)" "\<lambda>k. f (xs ! k) (ys ! k)"] assms by simp

lemma bc3_full:
  assumes x: "has_shape3 x B T U" and y: "has_shape3 y B T U"
  shows "bc3 (\<lambda>a b. Inr (f a b)) x y = Inr (tab3 B T U (\<lambda>b t k. f (x ! b ! t ! k) (y ! b ! t ! k)))"
proof -
  have inner: "bc (\<lambda>a b. Inr (f a b)) (x ! b ! t) (y ! b ! t)
      = Inr (map (\<lambda>k. f (x ! b ! t ! k) (y ! b ! t ! k)) [0..<U])" if "b < B" "t < T" for b t
    using that has_shape3_nth[OF x] has_shape3_nth[OF y] by (intro bc_vec) auto
  have mid: "bc (bc (\<lambda>a b. Inr (f a b))) (x ! b) (y ! b)
      = Inr (map (\<lambda>t. map (\<lambda>k. f (x ! b ! t ! k) (y ! b ! t ! k)) [0..<U]) [0..<T])" if "b < B" for b
    using bc_same[of "x ! b" "y ! b" "bc (\<lambda>a b. Inr (f a b))"
        "\<lambda>t. map (\<lambda>k. f (x ! b ! t ! k) (y ! b ! t ! k)) [0..<U]"]
      that inner has_shape3_nth(1)[OF x] has_shape3_nth(1)[OF y] by simp
  have lx: "length x = B" and ly: "length y = B" using x y by (auto simp: has_shape3_def)
  show ?thesis
    unfolding bc3_def
    using bc_same[of x y "bc (bc (\<lambda>a b. Inr (f a b)))"
        "\<lambda>b. map (\<lambda>t. map (\<lambda>k. f (x ! b ! t ! k) (y ! b ! t ! k)) [0..<U]) [0..<T]"]
      mid lx ly by simp
qed

lemma bc3_mid1:
  assumes x: "has_shape3 x B T U" and y: "has_shape3 y B 1 U"
  shows "bc3 (\<lambda>a b. Inr (f a b)) x y = Inr (tab3 B T U (\<lambda>b t k. f (x ! b ! t ! k) (y ! b ! 0 ! k)))"
proof -
  have y1: "y ! b = [y ! b ! 0]" "length (y ! b ! 0) = U" if "b < B" for b
  proof -
    have "length (y ! b) = 1" using has_shape3_nth(1)[OF y that] .
    then show "y ! b = [y ! b ! 0]" by (cases "y ! b") auto
    show "length (y ! b ! 0) = U" using has_shape3_nth(2)[OF y that, of 0] by simp
  qed
  have inner: "bc (\<lambda>a b. Inr (f a b)) (x ! b ! t) (y ! b ! 0)
      = Inr (map (\<lambda>k. f (x ! b ! t ! k) (y ! b ! 0 ! k)) [0..<U])" if "b < B" "t < T" for b t
    using that has_shape3_nth[OF x] y1 by (intro bc_vec) auto
  have mid: "bc (bc (\<lambda>a b. Inr (f a b))) (x ! b) (y ! b)
      = Inr (map (\<lambda>t. map (\<lambda>k. f (x ! b ! t ! k) (y ! b ! 0 ! k)) [0..<U]) [0..<T])" if "b < B" for b
  proof -
    have "bc (bc (\<lambda>a b. Inr (f a b))) (x ! b) [y ! b ! 0]
      = Inr (map (\<lambda>t. map (\<lambda>k. f (x ! b ! t ! k) (y ! b ! 0 ! k)) [0..<U]) [0..<length (x ! b)])"
      using inner that has_shape3_nth(1)[OF x that] by (intro bc_right1) auto
    then show ?thesis using y1(1)[OF that] has_shape3_nth(1)[OF x that] by simp
  qed
  have lx: "length x = B" and ly: "length y = B" using x y by (auto simp: has_shape3_def)
  show ?thesis
    unfolding bc3_def
    using bc_same[of x y "bc (bc (\<lambda>a b. Inr (f a b)))"
        "\<lambda>b. map (\<lambda>t. map (\<lambda>k. f (x ! b ! t ! k) (y ! b ! 0 ! k)) [0..<U]) [0..<T]"]
      mid lx ly by simp
qed

lemma bc3_vec:
  assumes y: "has_shape3 y B T U" and v: "length v = U"
  shows "bc3 (\<lambda>a b. Inr (f a b)) [[v]] y = Inr (tab3 B T U (\<lambda>b t k. f (v ! k) (y ! b ! t ! k)))"
proof -
  have inner: "bc (\<lambda>a b. Inr (f a b)) v (y ! b ! t)
      = Inr (map (\<lambda>k. f (v ! k) (y ! b ! t ! k)) [0..<U])" if "b < B" "t < T" for b t
    using that has_shape3_nth[OF y] v by (intro bc_vec) auto
  have mid: "bc (bc (\<lambda>a b. Inr (f a b))) [v] (y ! b)
      = Inr (map (\<lambda>t. map (\<lambda>k. f (v ! k) (y ! b ! t ! k)) [0..<U]) [0..<T])" if "b < B" for b
    using bc_left1[of "y ! b" "bc (\<lambda>a b. Inr (f a b))" v
        "\<lambda>t. map (\<lambda>k. f (v ! k) (y ! b ! t ! k)) [0..<U]"]
      inner that has_shape3_nth(1)[OF y that] by simp
  have ly: "length y = B" using y by (auto simp: has_shape3_def)
  show ?thesis
    unfolding bc3_def
    using bc_left1[of y "bc (bc (\<lambda>a b. Inr (f a b)))" "[v]"
        "\<lambda>b. map (\<lambda>t. map (\<lambda>k. f (v ! k) (y ! b ! t ! k)) [0..<U]) [0..<T]"]
      mid ly by simp
qed

lemma sum_list_upt: "sum_list (map h [0..<n]) = (\<Sum>k<n. h k)"
  by (simp add: sum_list_sum_nth atLeast0LessThan)

lemma sequence_map_Inr_D:
  assumes "sequence (map F xs) = Inr ys"
  shows "length ys = length xs" and "i < length xs \<Longrightarrow> F (xs ! i) = Inr (ys ! i)"
proof -
  have eq: "map F xs = map Inr ys" using assms by (simp add: sequence_Inr_iff)
  then show len: "length ys = length xs" by (metis length_map)
  show "F (xs ! i) = Inr (ys ! i)" if "i < length xs"
  proof -
    have "map F xs ! i = map Inr ys ! i" using eq by simp
    then show ?thesis using that len by simp
  qed
qed

lemma bc_singleton: "bc g xs [y] = sequence (map (\<lambda>x. g x y) xs)"
proof (cases "length xs = 1")
  case True
  then obtain x where "xs = [x]" by (cases xs) auto
  then show ?thesis by (simp add: bc_def)
next
  case False
  then show ?thesis by (simp add: bc_def)
qed

lemma bc_map_same: "bc g xs (map f xs) = sequence (map (\<lambda>x. g x (f x)) xs)"
proof -
  have "map2 g xs (map f xs) = map (\<lambda>x. g x (f x)) xs"
    by (induction xs) auto
  then show ?thesis by (simp add: bc_def)
qed

lemma tf_div_rowsum:
  "tf_div (Tensor d M) (reduce_sum_keepdims (Tensor d M))
     = bindE (sequence (map row_div M)) (\<lambda>r. Inr (Tensor d r))"
  by (simp add: tf_div_def reduce_sum_keepdims_def bc_map_same bc_singleton row_div_def[abs_def])

lemma row_div_ok:
  assumes "row = [] \<or> sum_list row \<noteq> 0"
  shows "row_div row = Inr (map (\<lambda>x. x / sum_list row) row)"
proof (cases "row = []")
  case True
  then show ?thesis by (simp add: row_div_def)
next
  case False
  with assms have "sum_list row \<noteq> 0" by simp
  then have "map (\<lambda>x. fdiv x (sum_list row)) row = map (\<lambda>x. Inr (x / sum_list row)) row"
    by (simp add: fdiv_def)
  then show ?thesis by (simp only: row_div_def sequence_map_Inr)
qed

lemma row_div_D:
  assumes "row_div row = Inr r"
  shows "row = [] \<or> sum_list row \<noteq> 0" and "r = map (\<lambda>x. x / sum_list row) row"
proof -
  show ok: "row = [] \<or> sum_list row \<noteq> 0"
  proof (rule ccontr)
    assume "\<not> ?thesis"
    then have ne: "row \<noteq> []" and z: "sum_list row = 0" by auto
    then have "0 < length row" by simp
    from sequence_map_Inr_D(2)[OF assms[unfolded row_div_def] this]
    show False using z by (simp add: fdiv_def)
  qed
  show "r = map (\<lambda>x. x / sum_list row) row"
    using row_div_ok[OF ok] assms by simp
qed

lemma normalize_ok:
  assumes "\<forall>row \<in> set M. row = [] \<or> sum_list row \<noteq> 0"
  shows "tf_div (Tensor d M) (reduce_sum_keepdims (Tensor d M))
     = Inr (Tensor d (map (\<lambda>row. map (\<lambda>x. x / sum_list row) row) M))"
proof -
  have "map row_div M = map (\<lambda>row. Inr (map (\<lambda>x. x / sum_list row) row)) M"
    using assms by (simp add: row_div_ok)
  then have "sequence (map row_div M) = Inr (map (\<lambda>row. map (\<lambda>x. x / sum_list row) row) M)"
    by (simp only: sequence_map_Inr)
  then show ?thesis by (simp add: tf_div_rowsum bindE_def)
qed

lemma normalize_D:
  assumes "tf_div (Tensor d M) (reduce_sum_keepdims (Tensor d M)) = Inr a"
  shows "\<forall>row \<in> set M. row = [] \<or> sum_list row \<noteq> 0"
    and "a = Tensor d (map (\<lambda>row. map (\<lambda>x. x / sum_list row) row) M)"
proof -
  from assms obtain r where r: "sequence (map row_div M) = Inr r"
    by (auto simp: tf_div_rowsum bindE_def split: sum.splits)
  show ok: "\<forall>row \<in> set M. row = [] \<or> sum_list row \<noteq> 0"
  proof
    fix row assume "row \<in> set M"
    then obtain i where i: "i < length M" "M ! i = row" by (auto simp: in_set_conv_nth)
    from sequence_map_Inr_D(2)[OF r i(1)] i(2) have "row_div row = Inr (r ! i)" by simp
    then show "row = [] \<or> sum_list row \<noteq> 0" by (rule row_div_D(1))
  qed
  show "a = Tensor d (map (\<lambda>row. map (\<lambda>x. x / sum_list row) row) M)"
    using normalize_ok[OF ok, of d] assms by simp
qed

lemma sum_list_divide: "(\<Sum>x\<leftarrow>xs. f x / (c::real)) = (\<Sum>x\<leftarrow>xs. f x) / c"
  by (induction xs) (auto simp: add_divide_distrib)

lemma row_sums_to_1:
  assumes "sum_list row \<noteq> (0::real)"
  shows "sum_list (map (\<lambda>x. x / sum_list row) row) = 1"
  using assms sum_list_divide[of "\<lambda>x. x" "sum_list row" row] by simp


lemma sigmoid_pos: "0 < sigmoid x"
  by (simp add: sigmoid_def add_pos_pos)

lemma sigmoid_score_nonneg: "0 \<le> sigmoid_score s"
  by (cases s) (auto simp: less_imp_le[OF sigmoid_pos])

lemma exp_score_nonneg: "0 \<le> exp_score s"
  by (cases s) auto

lemma call_D:
  assumes "call m v_a query state = Inr (a, n)"
  shows "n = a" and "\<exists>energy. probability_fn m energy state = Inr a"
  using assms by (auto simp: call_def bindE_def Let_def split: sum.splits)

lemma init_probability_fn:
  assumes "init sg hp ks nu memory msl smoothing name = Inr m"
  shows "probability_fn m = (\<lambda>s prev. bindE (maybe_mask_score s msl)
            (if smoothing then smoothing_with sg else softmax))"
  using assms
  by (auto simp: init_def bahdanau_init_def bindE_def Let_def bahdanau.extend_def split: sum.splits)



lemma sum_list_pos_real:
  assumes "xs \<noteq> []" "\<forall>x \<in> set xs. 0 < (x::real)"
  shows "0 < sum_list xs"
  using assms by (induction xs) (auto simp: add_pos_nonneg sum_list_nonneg less_imp_le)

lemma smoothing_as_normalize:
  "smoothing_normalization e = tf_div (Tensor (dtype e) (map (map sigmoid_score) (val e)))
     (reduce_sum_keepdims (Tensor (dtype e) (map (map sigmoid_score) (val e))))"
  by (simp add: smoothing_normalization_def tf_sigmoid_def)

lemma smoothing_with_as_normalize:
  "smoothing_with sg e = tf_div (Tensor (dtype e) (map (map sg) (val e)))
     (reduce_sum_keepdims (Tensor (dtype e) (map (map sg) (val e))))"
  by (simp add: smoothing_with_def tf_sigmoid_with_def)

lemma smoothing_with_ideal: "smoothing_with sigmoid_score e = smoothing_normalization e"
  by (simp add: smoothing_with_as_normalize smoothing_as_normalize)

lemma softmax_as_normalize:
  "softmax e = tf_div (Tensor (dtype e) (map (map exp_score) (val e)))
     (reduce_sum_keepdims (Tensor (dtype e) (map (map exp_score) (val e))))"
  by (simp add: softmax_def tf_exp_def)



lemma sum_list_pos_of_ne0:
  assumes "\<forall>x \<in> set xs. 0 \<le> (x::real)" "sum_list xs \<noteq> 0"
  shows "0 < sum_list xs"
  using assms sum_list_nonneg[of xs] by fastforce




lemma init_call_D:
  assumes "init sg hp ks nu memory msl smoothing name = Inr m"
    and "call m v_a query state = Inr (a, n)"
  shows "\<exists>s e. maybe_mask_score s msl = Inr e
           \<and> (if smoothing then smoothing_with sg e else softmax e) = Inr a"
proof -
  from call_D(2)[OF assms(2)] obtain s where "probability_fn m s state = Inr a" by blast
  then have "bindE (maybe_mask_score s msl)
               (if smoothing then smoothing_with sg else softmax) = Inr a"
    by (simp only: init_probability_fn[OF assms(1)])
  then show ?thesis by (auto simp: bindE_def split: sum.splits if_splits)
qed

lemmas example_defs = example_hparams_def example_kernels_def example_memory_def
  example_query_def example_state_def
  example_single_memory_def example_single_state_def example_query_float64_def

lemmas init_defs = init_def bahdanau_init_def prepare_memory_def dense_apply3_def dense_vec_def
  sequence_mask_def bindE_def bahdanau.extend_def Let_def

lemmas call_defs = call_def dense_apply2_def dense_apply3_def dense_vec_def conv1d_apply_def
  conv_row_def tap_def expand_dims_1_def expand_dims_2_def bindE_def Let_def
  location_sensitive_score_def get_variable_v_a_def trailing_is_def tf_add_def tf_mul_def
  binop3_def bc3_def bc_def tf_tanh_def as_rank3_def reduce_sum_axis2_def
  maybe_mask_score_def sequence_mask_def smoothing_normalization_def smoothing_with_def
  tf_sigmoid_with_def softmax_def tf_div_def
  tf_sigmoid_def tf_exp_def reduce_sum_keepdims_def fdiv_def


lemma exp_sum_ne0: "exp (x::real) + exp y \<noteq> 0"
  using exp_gt_zero[of x] exp_gt_zero[of y] by linarith

lemma score_value:
  assumes q: "has_shape3 q B 1 U" and l: "has_shape3 loc B T U" and k: "has_shape3 kys B T U"
    and v: "length v_a = U" and U: "0 < U"
  shows "location_sensitive_score v_a (Tensor float32 q) (Tensor float32 loc) (Tensor float32 kys)
    = Inr (Tensor float32 (map (\<lambda>b. map (\<lambda>t.
        (\<Sum>u<U. v_a ! u * tanh (kys ! b ! t ! u + q ! b ! 0 ! u + loc ! b ! t ! u))) [0..<T]) [0..<B]))"
proof -
  let ?kq = "tab3 B T U (\<lambda>b t u. kys ! b ! t ! u + q ! b ! 0 ! u)"
  let ?s = "tab3 B T U (\<lambda>b t u. kys ! b ! t ! u + q ! b ! 0 ! u + loc ! b ! t ! u)"
  let ?th = "tab3 B T U (\<lambda>b t u. tanh (kys ! b ! t ! u + q ! b ! 0 ! u + loc ! b ! t ! u))"
  let ?p = "tab3 B T U (\<lambda>b t u. v_a ! u * tanh (kys ! b ! t ! u + q ! b ! 0 ! u + loc ! b ! t ! u))"
  have g: "get_variable_v_a v_a (Tensor float32 q) = Inr (Tensor float32 v_a)"
    using q v U by (auto simp: get_variable_v_a_def trailing_is_def has_shape3_def)
  have a1: "tf_add (Tensor float32 kys) (Tensor float32 q) = Inr (Tensor float32 ?kq)"
    by (simp add: tf_add_def binop3_def bc3_mid1[OF k q] bindE_def)
  have "bc3 (\<lambda>x y. Inr (x + y)) ?kq loc = Inr (tab3 B T U (\<lambda>b t u. ?kq ! b ! t ! u + loc ! b ! t ! u))"
    by (rule bc3_full[OF has_shape3_tab3 l])
  also have "tab3 B T U (\<lambda>b t u. ?kq ! b ! t ! u + loc ! b ! t ! u) = ?s"
    by simp
  finally have a2: "tf_add (Tensor float32 ?kq) (Tensor float32 loc) = Inr (Tensor float32 ?s)"
    by (simp add: tf_add_def binop3_def bindE_def)
  have t: "tf_tanh (Tensor float32 ?s) = Tensor float32 ?th"
    by (simp add: tf_tanh_def)
  have "bc3 (\<lambda>x y. Inr (x * y)) [[v_a]] ?th = Inr (tab3 B T U (\<lambda>b t u. v_a ! u * ?th ! b ! t ! u))"
    by (rule bc3_vec[OF has_shape3_tab3 v])
  also have "tab3 B T U (\<lambda>b t u. v_a ! u * ?th ! b ! t ! u) = ?p"
    by simp
  finally have m: "tf_mul (as_rank3 (Tensor float32 v_a)) (Tensor float32 ?th) = Inr (Tensor float32 ?p)"
    by (simp add: tf_mul_def binop3_def bindE_def as_rank3_def)
  have r: "reduce_sum_axis2 (Tensor float32 ?p) = Tensor float32 (map (\<lambda>b. map (\<lambda>t.
        (\<Sum>u<U. v_a ! u * tanh (kys ! b ! t ! u + q ! b ! 0 ! u + loc ! b ! t ! u))) [0..<T]) [0..<B])"
    by (simp add: reduce_sum_axis2_def sum_list_upt comp_def)
  show ?thesis
    unfolding location_sensitive_score_def
    by (simp only: g a1 a2 t m r bindE_def sum.case)
qed

lemma sequence_map_ok:
  assumes "\<forall>x \<in> set xs. \<exists>y. F x = Inr y \<and> P y"
  shows "\<exists>ys. sequence (map F xs) = Inr ys \<and> length ys = length xs \<and> (\<forall>y \<in> set ys. P y)"
  using assms
proof (induction xs)
  case Nil
  then show ?case by simp
next
  case (Cons x xs)
  from Cons.prems obtain y where y: "F x = Inr y" "P y" by auto
  from Cons obtain ys where ys: "sequence (map F xs) = Inr ys" "length ys = length xs"
    "\<forall>y \<in> set ys. P y" by auto
  have "sequence (map F (x # xs)) = Inr (y # ys)" using y(1) ys(1) by simp
  with y(2) ys(2,3) show ?case by auto
qed

lemma dense_vec_ok:
  assumes "has_shape2 (val (dense_kernel l)) (length x) (units l)"
  shows "\<exists>y. dense_vec l x = Inr y \<and> length y = units l"
  using assms by (auto simp: dense_vec_def has_shape2_def Let_def)

lemma dense_rows_ok:
  assumes k: "has_shape2 (val (dense_kernel l)) Q (units l)" and r: "\<forall>x \<in> set xs. length x = Q"
  shows "\<exists>ys. sequence (map (dense_vec l) xs) = Inr ys \<and> length ys = length xs
           \<and> (\<forall>y \<in> set ys. length y = units l)"
proof (rule sequence_map_ok)
  show "\<forall>x \<in> set xs. \<exists>y. dense_vec l x = Inr y \<and> length y = units l"
    using dense_vec_ok[of l] k r by auto
qed

lemma dense_apply2_ok:
  assumes x: "has_shape2 (val x) B Q"
    and k: "has_shape2 (val (dense_kernel l)) Q (units l)"
  shows "\<exists>y. dense_apply2 l x = Inr (Tensor (dtype (dense_kernel l)) y) \<and> has_shape2 y B (units l)"
proof -
  have "\<forall>r \<in> set (val x). length r = Q" using x by (simp add: has_shape2_def)
  from dense_rows_ok[OF k this] obtain ys
    where "sequence (map (dense_vec l) (val x)) = Inr ys" "length ys = length (val x)"
      "\<forall>y \<in> set ys. length y = units l" by blast
  then show ?thesis using x by (auto simp: dense_apply2_def bindE_def has_shape2_def)
qed

lemma dense_apply3_ok:
  assumes d: "dtype x = dtype (dense_kernel l)" and x: "has_shape3 (val x) B T Q"
    and k: "has_shape2 (val (dense_kernel l)) Q (units l)"
  shows "\<exists>y. dense_apply3 l x = Inr (Tensor (dtype x) y) \<and> has_shape3 y B T (units l)"
proof -
  have "\<forall>m \<in> set (val x). \<exists>ys. sequence (map (dense_vec l) m) = Inr ys
          \<and> (length ys = T \<and> (\<forall>y \<in> set ys. length y = units l))"
  proof
    fix m assume m: "m \<in> set (val x)"
    then have "\<forall>r \<in> set m. length r = Q" and "length m = T" using x by (auto simp: has_shape3_def)
    with dense_rows_ok[OF k, of m]
    show "\<exists>ys. sequence (map (dense_vec l) m) = Inr ys
          \<and> (length ys = T \<and> (\<forall>y \<in> set ys. length y = units l))" by auto
  qed
  from sequence_map_ok[of "val x" "\<lambda>m. sequence (map (dense_vec l) m)"
      "\<lambda>ys. length ys = T \<and> (\<forall>y \<in> set ys. length y = units l)", OF this]
  obtain zs where "sequence (map (\<lambda>m. sequence (map (dense_vec l) m)) (val x)) = Inr zs"
    "length zs = length (val x)" "\<forall>ys \<in> set zs. length ys = T \<and> (\<forall>y \<in> set ys. length y = units l)"
    by blast
  then show ?thesis using d x by (auto simp: dense_apply3_def bindE_def has_shape3_def)
qed

lemma conv_row_ok:
  assumes K: "0 < kernel_size l"
    and k: "has_shape3 (val (conv_kernel l)) (kernel_size l) C (filters l)"
    and x: "\<forall>p \<in> set xs. length p = C"
  shows "\<exists>y. conv_row l xs = Inr y \<and> (length y = length xs \<and> (\<forall>r \<in> set y. length r = filters l))"
proof -
  let ?W = "val (conv_kernel l)"
  have len: "length ?W = kernel_size l" using k by (simp add: has_shape3_def)
  with K have "?W \<noteq> []" by auto
  then have "hd ?W \<in> set ?W" by simp
  then have C: "length (hd ?W) = C" using k by (simp add: has_shape3_def)
  have "\<forall>w \<in> set ?W. length w = C \<and> (\<forall>r \<in> set w. length r = filters l)"
    using k by (simp add: has_shape3_def)
  then show ?thesis using K len C x by (auto simp: conv_row_def Let_def)
qed

lemma conv1d_apply_ok:
  assumes d: "dtype x = dtype (conv_kernel l)" and x: "has_shape3 (val x) B T C"
    and K: "0 < kernel_size l"
    and k: "has_shape3 (val (conv_kernel l)) (kernel_size l) C (filters l)"
  shows "\<exists>y. conv1d_apply l x = Inr (Tensor (dtype x) y) \<and> has_shape3 y B T (filters l)"
proof -
  have "\<forall>m \<in> set (val x). \<exists>y. conv_row l m = Inr y
          \<and> (length y = T \<and> (\<forall>r \<in> set y. length r = filters l))"
  proof
    fix m assume "m \<in> set (val x)"
    then have "\<forall>p \<in> set m. length p = C" and "length m = T" using x by (auto simp: has_shape3_def)
    with conv_row_ok[OF K k, of m]
    show "\<exists>y. conv_row l m = Inr y \<and> (length y = T \<and> (\<forall>r \<in> set y. length r = filters l))"
      by auto
  qed
  from sequence_map_ok[of "val x" "conv_row l"
      "\<lambda>y. length y = T \<and> (\<forall>r \<in> set y. length r = filters l)", OF this]
  obtain zs where "sequence (map (conv_row l) (val x)) = Inr zs" "length zs = length (val x)"
    "\<forall>y \<in> set zs. length y = T \<and> (\<forall>r \<in> set y. length r = filters l)" by blast
  then show ?thesis using d x by (auto simp: conv1d_apply_def bindE_def has_shape3_def)
qed

lemma expand_dims_1_shape:
  assumes "has_shape2 (val a) B U"
  shows "has_shape3 (val (expand_dims_1 a)) B 1 U" and "dtype (expand_dims_1 a) = dtype a"
  using assms by (auto simp: expand_dims_1_def has_shape2_def has_shape3_def)

lemma expand_dims_2_shape:
  assumes "has_shape2 (val a) B T"
  shows "has_shape3 (val (expand_dims_2 a)) B T 1" and "dtype (expand_dims_2 a) = dtype a"
  using assms by (auto simp: expand_dims_2_def has_shape2_def has_shape3_def)

lemma masked_row_Cons:
  assumes "0 < L"
  shows "\<exists>rest. map2 (\<lambda>keep x. if keep then Fin x else NegInf)
            (sequence_mask L (length (x # xs))) (x # xs) = Fin x # rest"
proof -
  have "[0..<Suc (length xs)] = 0 # [Suc 0..<Suc (length xs)]"
    by (simp add: upt_conv_Cons del: upt_Suc)
  then show ?thesis using assms by (simp add: sequence_mask_def del: upt_Suc)
qed

lemma sum_list_pos_head:
  assumes "0 < (x::real)" "\<forall>y \<in> set ys. 0 \<le> y"
  shows "sum_list (x # ys) \<noteq> 0"
proof -
  have "0 \<le> sum_list ys" using assms(2) by (intro sum_list_nonneg) blast
  with assms(1) have "0 < x + sum_list ys" by (rule add_pos_nonneg)
  then show ?thesis by simp
qed

lemma masked_row_sum:
  fixes g :: "score \<Rightarrow> real"
  assumes nn: "\<And>s. 0 \<le> g s" and pos: "\<And>x. 0 < g (Fin x)" and L: "0 < L"
  shows "map g (map2 (\<lambda>keep x. if keep then Fin x else NegInf) (sequence_mask L (length row)) row) = []
       \<or> sum_list (map g (map2 (\<lambda>keep x. if keep then Fin x else NegInf)
                              (sequence_mask L (length row)) row)) \<noteq> 0"
proof (cases row)
  case Nil
  then show ?thesis by simp
next
  case (Cons x xs)
  from masked_row_Cons[OF L, of x xs] obtain rest
    where r: "map2 (\<lambda>keep x. if keep then Fin x else NegInf)
            (sequence_mask L (length (x # xs))) (x # xs) = Fin x # rest" by (rule exE)
  have "sum_list (g (Fin x) # map g rest) \<noteq> 0"
    using pos nn by (intro sum_list_pos_head) auto
  then show ?thesis unfolding Cons r by simp
qed

lemma unmasked_row_sum:
  fixes g :: "score \<Rightarrow> real"
  assumes pos: "\<And>x. 0 < g (Fin x)"
  shows "map g (map Fin row) = [] \<or> sum_list (map g (map Fin row)) \<noteq> (0::real)"
proof (cases row)
  case Nil
  then show ?thesis by simp
next
  case (Cons x xs)
  have "0 < sum_list (map g (map Fin row))"
    using pos Cons by (intro sum_list_pos_real) auto
  then show ?thesis by simp
qed

lemma maybe_mask_score_ok:
  fixes g :: "score \<Rightarrow> real"
  assumes "lengths_ok msl (length (val s))"
    and nn: "\<And>s. 0 \<le> g s" and pos: "\<And>x. 0 < g (Fin x)"
  shows "\<exists>e. maybe_mask_score s msl = Inr (Tensor (dtype s) e) \<and> length e = length (val s)
           \<and> (\<forall>i < length e. length (e ! i) = length (val s ! i))
           \<and> (\<forall>row \<in> set (map (map g) e). row = [] \<or> sum_list row \<noteq> 0)"
proof (cases msl)
  case None
  let ?e = "map (map Fin) (val s)"
  have "\<forall>row \<in> set (map (map g) ?e). row = [] \<or> sum_list row \<noteq> 0"
    using unmasked_row_sum[of g, OF pos] by (auto simp del: map_map)
  then show ?thesis using None
    by (intro exI[of _ ?e]) (simp add: maybe_mask_score_def del: map_map)
next
  case (Some lens)
  let ?f = "\<lambda>L row. map2 (\<lambda>keep x. if keep then Fin x else NegInf) (sequence_mask L (length row)) row"
  let ?e = "map2 ?f lens (val s)"
  have len: "length lens = length (val s)" and L: "\<forall>L \<in> set lens. 0 < L"
    using assms(1) Some by (simp_all add: lengths_ok_def)
  have "row = [] \<or> sum_list row \<noteq> 0" if "row \<in> set (map (map g) ?e)" for row
  proof -
    from that obtain L r where "(L, r) \<in> set (zip lens (val s))" and row: "row = map g (?f L r)"
      by auto
    then have "L \<in> set lens" by (auto dest: set_zip_leftD)
    with L have "0 < L" by blast
    from masked_row_sum[of g, OF nn pos this, of r] show ?thesis unfolding row .
  qed
  moreover have "length (?e ! i) = length (val s ! i)" if "i < length ?e" for i
    using that len by (simp add: sequence_mask_def)
  ultimately show ?thesis using Some len
    by (intro exI[of _ ?e]) (simp add: maybe_mask_score_def)
qed

lemma probability_ok:
  fixes sg :: "score \<Rightarrow> real"
  assumes "lengths_ok msl (length (val s))"
    and sg: "smoothing \<Longrightarrow> (\<forall>t. 0 \<le> sg t) \<and> (\<forall>x. 0 < sg (Fin x))"
  shows "\<exists>a. bindE (maybe_mask_score s msl)
                (if smoothing then smoothing_with sg else softmax) = Inr (Tensor (dtype s) a)
           \<and> length a = length (val s) \<and> (\<forall>i < length a. length (a ! i) = length (val s ! i))"
proof -
  let ?g = "if smoothing then sg else exp_score"
  have nn: "\<And>t. 0 \<le> ?g t" using sg by (simp add: exp_score_nonneg)
  have pos: "\<And>x. 0 < ?g (Fin x)" using sg by simp
  from maybe_mask_score_ok[of msl s ?g, OF assms(1) nn pos] obtain e
    where m: "maybe_mask_score s msl = Inr (Tensor (dtype s) e)" and le: "length e = length (val s)"
      and rows: "\<forall>i < length e. length (e ! i) = length (val s ! i)"
      and ok: "\<forall>row \<in> set (map (map ?g) e). row = [] \<or> sum_list row \<noteq> 0" by blast
  let ?a = "map (\<lambda>row. map (\<lambda>x. x / sum_list row) row) (map (map ?g) e)"
  have "(if smoothing then smoothing_with sg else softmax) (Tensor (dtype s) e)
      = Inr (Tensor (dtype s) ?a)"
    using normalize_ok[OF ok, of "dtype s"]
    by (cases smoothing) (simp_all add: smoothing_with_as_normalize softmax_as_normalize)
  then have "bindE (maybe_mask_score s msl)
                (if smoothing then smoothing_with sg else softmax) = Inr (Tensor (dtype s) ?a)"
    using m by (simp add: bindE_def)
  moreover have "length ?a = length (val s)" using le by simp
  moreover have "\<forall>i < length ?a. length (?a ! i) = length (val s ! i)" using rows by simp
  ultimately show ?thesis by blast
qed

lemma has_shape3_nthI:
  assumes "length x = B"
    and "\<And>b. b < B \<Longrightarrow> length (x ! b) = T"
    and "\<And>b t. b < B \<Longrightarrow> t < T \<Longrightarrow> length (x ! b ! t) = D"
  shows "has_shape3 x B T D"
  unfolding has_shape3_def
proof (intro conjI ballI)
  show "length x = B" by fact
  fix m assume "m \<in> set x"
  then obtain b where b: "b < B" "m = x ! b" using assms(1) by (auto simp: in_set_conv_nth)
  then show lm: "length m = T" using assms(2) by simp
  fix r assume "r \<in> set m"
  then obtain t where "t < T" "r = m ! t" using lm by (auto simp: in_set_conv_nth)
  then show "length r = D" using assms(3) b by simp
qed

lemma prepare_memory_ok:
  assumes mem: "has_shape3 (val memory) B T D" and lens: "lengths_ok msl B"
  shows "\<exists>vs. prepare_memory memory msl = Inr (Tensor (dtype memory) vs) \<and> has_shape3 vs B T D"
proof (cases msl)
  case None
  then show ?thesis using mem by (cases memory) (simp add: prepare_memory_def)
next
  case (Some ls)
  let ?g = "\<lambda>keep r. if keep then r else map (\<lambda>_. 0::real) r"
  let ?f = "\<lambda>L m. map2 ?g (sequence_mask L (length m)) m"
  let ?vs = "map2 ?f ls (val memory)"
  have len: "length ls = length (val memory)" "length (val memory) = B"
    using lens Some mem by (simp_all add: lengths_ok_def has_shape3_def)
  have "has_shape3 ?vs B T D"
  proof (rule has_shape3_nthI)
    show "length ?vs = B" using len by simp
    fix b assume b: "b < B"
    have vb: "?vs ! b = ?f (ls ! b) (val memory ! b)" using b len by simp
    have lm: "length (val memory ! b) = T" using has_shape3_nth(1)[OF mem b] .
    show "length (?vs ! b) = T" unfolding vb using lm by (simp add: sequence_mask_def)
    fix t assume t: "t < T"
    have "?vs ! b ! t = ?g (sequence_mask (ls ! b) T ! t) (val memory ! b ! t)"
      unfolding vb using lm t by (simp add: sequence_mask_def)
    then show "length (?vs ! b ! t) = D"
      using has_shape3_nth(2)[OF mem b t] by simp
  qed
  then show ?thesis using Some len by (intro exI[of _ ?vs]) (simp add: prepare_memory_def)
qed

lemma init_ok:
  assumes mem: "has_shape3 (val memory) B T D" and lens: "lengths_ok msl B"
    and km: "has_shape2 (val (W_memory_layer ks)) D nu"
    and dm: "dtype (W_memory_layer ks) = dtype memory"
  shows "\<exists>m. init sg hp ks nu memory msl smoothing name = Inr m
           \<and> has_shape3 (val (keys m)) B T nu \<and> dtype (keys m) = dtype memory
           \<and> query_layer m = Some \<lparr>units = nu, dense_kernel = W_query_layer ks\<rparr>
           \<and> location_convolution m = \<lparr>filters = attention_filters hp,
                kernel_size = attention_kernel hp, conv_kernel = W_location_convolution ks\<rparr>
           \<and> location_layer m = \<lparr>units = nu, dense_kernel = Tensor float32 (W_location_layer ks)\<rparr>"
proof -
  let ?ml = "\<lparr>units = nu, dense_kernel = W_memory_layer ks\<rparr>"
  from prepare_memory_ok[OF mem lens] obtain vs
    where p: "prepare_memory memory msl = Inr (Tensor (dtype memory) vs)"
      and vs: "has_shape3 vs B T D" by blast
  have "\<exists>y. dense_apply3 ?ml (Tensor (dtype memory) vs) = Inr (Tensor (dtype (Tensor (dtype memory) vs)) y)
          \<and> has_shape3 y B T (units ?ml)"
    using vs km dm by (intro dense_apply3_ok[where Q = D]) simp_all
  then obtain ky where k: "dense_apply3 ?ml (Tensor (dtype memory) vs) = Inr (Tensor (dtype memory) ky)"
    and ky: "has_shape3 ky B T nu" by auto
  show ?thesis
    using p k ky by (simp add: init_def bahdanau_init_def bindE_def Let_def bahdanau.extend_def)
qed

lemma call_returns:
  fixes sg :: "score \<Rightarrow> real"
  assumes mem: "has_shape3 (val memory) B T D" "dtype memory = float32"
    and lens: "lengths_ok msl B"
    and km: "has_shape2 (val (W_memory_layer ks)) D nu" "dtype (W_memory_layer ks) = float32"
    and kq: "has_shape2 (val (W_query_layer ks)) Q nu" "dtype (W_query_layer ks) = float32"
    and kc: "has_shape3 (val (W_location_convolution ks)) (attention_kernel hp) 1 (attention_filters hp)"
      "0 < attention_kernel hp" "dtype (W_location_convolution ks) = float32"
    and kl: "has_shape2 (W_location_layer ks) (attention_filters hp) nu"
    and q: "has_shape2 (val query) B Q"
    and s: "has_shape2 (val state) B T" "dtype state = float32"
    and v: "length v_a = nu" and nu: "0 < nu"
    and sg: "smoothing \<Longrightarrow> (\<forall>t. 0 \<le> sg t) \<and> (\<forall>x. 0 < sg (Fin x))"
  shows "\<exists>m a. init sg hp ks nu memory msl smoothing name = Inr m
           \<and> call m v_a query state = Inr (Tensor float32 a, Tensor float32 a)
           \<and> has_shape2 a B T"
proof -
  let ?ql = "\<lparr>units = nu, dense_kernel = W_query_layer ks\<rparr>"
  let ?cl = "\<lparr>filters = attention_filters hp, kernel_size = attention_kernel hp,
              conv_kernel = W_location_convolution ks\<rparr>"
  let ?ll = "\<lparr>units = nu, dense_kernel = Tensor float32 (W_location_layer ks)\<rparr>"
  from init_ok[OF mem(1) lens km(1), of sg hp smoothing name] km(2) mem(2) obtain m
    where i: "init sg hp ks nu memory msl smoothing name = Inr m"
      and ky: "has_shape3 (val (keys m)) B T nu" "dtype (keys m) = float32"
      and ql: "query_layer m = Some ?ql" and cl: "location_convolution m = ?cl"
      and ll: "location_layer m = ?ll" by auto
  have "\<exists>y. dense_apply2 ?ql query = Inr (Tensor (dtype (dense_kernel ?ql)) y)
          \<and> has_shape2 y B (units ?ql)"
    using q kq by (intro dense_apply2_ok[where Q = Q]) simp_all
  then obtain pq where pq: "dense_apply2 ?ql query = Inr (Tensor float32 pq)"
    and pqs: "has_shape2 pq B nu" using kq(2) by auto
  have pq3: "has_shape3 (val (expand_dims_1 (Tensor float32 pq))) B 1 nu"
    "dtype (expand_dims_1 (Tensor float32 pq)) = float32"
    using expand_dims_1_shape[of "Tensor float32 pq" B nu] pqs by simp_all
  have ea: "has_shape3 (val (expand_dims_2 state)) B T 1" "dtype (expand_dims_2 state) = float32"
    using expand_dims_2_shape[of state B T] s by simp_all
  have "\<exists>y. conv1d_apply ?cl (expand_dims_2 state) = Inr (Tensor (dtype (expand_dims_2 state)) y)
          \<and> has_shape3 y B T (filters ?cl)"
    using ea kc by (intro conv1d_apply_ok[where C = 1]) simp_all
  then obtain f where f: "conv1d_apply ?cl (expand_dims_2 state) = Inr (Tensor float32 f)"
    and fs: "has_shape3 f B T (attention_filters hp)" using ea(2) by auto
  have "\<exists>y. dense_apply3 ?ll (Tensor float32 f) = Inr (Tensor (dtype (Tensor float32 f)) y)
          \<and> has_shape3 y B T (units ?ll)"
    using fs kl by (intro dense_apply3_ok[where Q = "attention_filters hp"]) simp_all
  then obtain plf where plf: "dense_apply3 ?ll (Tensor float32 f) = Inr (Tensor float32 plf)"
    and plfs: "has_shape3 plf B T nu" by auto
  obtain pqv where pqv: "expand_dims_1 (Tensor float32 pq) = Tensor float32 pqv"
    and pqvs: "has_shape3 pqv B 1 nu"
    using pq3 by (cases "expand_dims_1 (Tensor float32 pq)") auto
  obtain kv where kv: "keys m = Tensor float32 kv" and kvs: "has_shape3 kv B T nu"
    using ky by (cases "keys m") auto
  let ?E = "map (\<lambda>b. map (\<lambda>t. (\<Sum>u<nu. v_a ! u * tanh (kv ! b ! t ! u + pqv ! b ! 0 ! u
                + plf ! b ! t ! u))) [0..<T]) [0..<B]"
  have e: "location_sensitive_score v_a (Tensor float32 pqv) (Tensor float32 plf) (Tensor float32 kv)
      = Inr (Tensor float32 ?E)"
    by (rule score_value[OF pqvs plfs kvs v nu])
  have "lengths_ok msl (length (val (Tensor float32 ?E)))" using lens by simp
  from probability_ok[OF this sg, of smoothing] obtain a
    where a: "bindE (maybe_mask_score (Tensor float32 ?E) msl)
                (if smoothing then smoothing_with sg else softmax) = Inr (Tensor float32 a)"
      and la: "length a = B" and ra: "\<forall>i < length a. length (a ! i) = length (?E ! i)"
    by auto
  have as: "has_shape2 a B T"
    unfolding has_shape2_def using la ra by (auto simp: in_set_conv_nth)
  have p: "probability_fn m (Tensor float32 ?E) state = Inr (Tensor float32 a)"
    using a by (simp only: init_probability_fn[OF i])
  have "call m v_a query state = Inr (Tensor float32 a, Tensor float32 a)"
    unfolding call_def Let_def ql cl ll
    by (simp only: option.case pq pqv f plf kv e p bindE_def sum.case)
  with i as show ?thesis by blast
qed

lemma sigmoid_le_1: "sigmoid x \<le> 1"
proof -
  have "1 \<le> 1 + exp (- x)" and "0 < 1 + exp (- x)" by (simp_all add: add_pos_pos)
  then show ?thesis unfolding sigmoid_def by (simp add: divide_le_eq)
qed

lemma engine_sigmoid_ok_real: "engine_sigmoid_ok sigmoid_score"
  unfolding engine_sigmoid_ok_def
proof (intro conjI allI)
  show "sigmoid_score NegInf = 0" by simp
  fix s
  show "0 \<le> sigmoid_score s" by (rule sigmoid_score_nonneg)
  show "sigmoid_score s \<le> 1" by (cases s) (simp_all add: sigmoid_le_1)
qed








section \<open>The score function computes the additive energy\<close>

text \<open>
  C1. For a processed query of shape \<open>[B, 1, U]\<close>, processed location features of
  shape \<open>[B, T, U]\<close> and processed keys of shape \<open>[B, T, U]\<close> (float32, with at least
  one unit and a scoring vector of length \<open>U\<close>), the score function returns an energy
  tensor of shape \<open>[B, T]\<close> whose entry \<open>(b, t)\<close> is the sum over the unit axis of
  \<open>v_a * tanh (keys[b][t] + query[b][0] + location_features[b][t])\<close>.
\<close>

theorem score_energy:
  assumes "has_shape3 W_query B 1 U" and "has_shape3 W_fil B T U" and "has_shape3 W_keys B T U"
    and "length v_a = U" and "0 < U"
  shows "\<exists>energy. location_sensitive_score v_a (Tensor float32 W_query) (Tensor float32 W_fil)
             (Tensor float32 W_keys) = Inr (Tensor float32 energy)
           \<and> has_shape2 energy B T
           \<and> (\<forall>b < B. \<forall>t < T. energy ! b ! t
                 = (\<Sum>u<U. v_a ! u * tanh (W_keys ! b ! t ! u + W_query ! b ! 0 ! u
                                             + W_fil ! b ! t ! u)))"
proof -
  let ?E = "map (\<lambda>b. map (\<lambda>t. (\<Sum>u<U. v_a ! u * tanh (W_keys ! b ! t ! u + W_query ! b ! 0 ! u
                + W_fil ! b ! t ! u))) [0..<T]) [0..<B]"
  have "location_sensitive_score v_a (Tensor float32 W_query) (Tensor float32 W_fil)
          (Tensor float32 W_keys) = Inr (Tensor float32 ?E)"
    using assms by (rule score_value)
  moreover have "has_shape2 ?E B T" by (simp add: has_shape2_def)
  moreover have "\<forall>b < B. \<forall>t < T. ?E ! b ! t
      = (\<Sum>u<U. v_a ! u * tanh (W_keys ! b ! t ! u + W_query ! b ! 0 ! u + W_fil ! b ! t ! u))"
    by simp
  ultimately show ?thesis by blast
qed

theorem score_energy_witness:
  "\<exists>energy. location_sensitive_score [2] (Tensor float32 [[[1]]]) (Tensor float32 [[[1], [0]]])
        (Tensor float32 [[[1], [-1]]]) = Inr (Tensor float32 energy)
     \<and> has_shape2 energy 1 2 \<and> energy ! 0 ! 0 = 2 * tanh 3 \<and> energy ! 0 ! 1 = 0"
proof -
  have q: "has_shape3 [[[1]]] 1 1 1" by (simp add: has_shape3_def)
  have l: "has_shape3 [[[1], [0]]] 1 2 1" by (simp add: has_shape3_def)
  have k: "has_shape3 [[[1], [-1]]] 1 2 1" by (simp add: has_shape3_def)
  have v: "length [2::real] = 1" by simp
  have u: "0 < (1::nat)" by simp
  from score_energy[OF q l k v u] obtain energy
    where e: "location_sensitive_score [2] (Tensor float32 [[[1]]]) (Tensor float32 [[[1], [0]]])
        (Tensor float32 [[[1], [-1]]]) = Inr (Tensor float32 energy)"
      and sh: "has_shape2 energy 1 2"
      and en: "\<forall>b < 1. \<forall>t < 2. energy ! b ! t
                 = (\<Sum>u<1. [2] ! u * tanh ([[[1], [-1]]] ! b ! t ! u + [[[1]]] ! b ! 0 ! u
                                             + [[[1], [0]]] ! b ! t ! u))"
    by blast
  from en have "energy ! 0 ! 0 = 2 * tanh 3" "energy ! 0 ! 1 = 0" by simp_all
  with e sh show ?thesis by blast
qed

section \<open>The smoothing normalization\<close>

text \<open>
  C3. For every energy matrix \<open>e\<close> (rows of real energies; shape \<open>[batch, source_length]\<close>)
  the smoothing normalization returns, at each position, the logistic transform of the
  energy divided by the sum of the logistic transforms over the energy's row.
\<close>

theorem smoothing_formula:
  "smoothing_normalization (Tensor d (map (map Fin) e))
     = Inr (Tensor d (map (\<lambda>row. map (\<lambda>x. sigmoid x / (\<Sum>y\<leftarrow>row. sigmoid y)) row) e))"
proof -
  let ?M = "map (map sigmoid) e"
  have M: "map (map sigmoid_score) (map (map Fin) e) = ?M"
    by (simp add: comp_def)
  have ok: "\<forall>row \<in> set ?M. row = [] \<or> sum_list row \<noteq> 0"
  proof
    fix row assume "row \<in> set ?M"
    then obtain r where r: "row = map sigmoid r" by auto
    show "row = [] \<or> sum_list row \<noteq> 0"
    proof (cases "row = []")
      case False
      then have "0 < sum_list row"
        using r by (intro sum_list_pos_real) (auto simp: sigmoid_pos)
      then show ?thesis by simp
    qed simp
  qed
  have "smoothing_normalization (Tensor d (map (map Fin) e))
      = Inr (Tensor d (map (\<lambda>row. map (\<lambda>x. x / sum_list row) row) ?M))"
    using normalize_ok[OF ok, of d] by (simp only: smoothing_as_normalize tensor.sel M)
  also have "map (\<lambda>row. map (\<lambda>x. x / sum_list row) row) ?M
      = map (\<lambda>row. map (\<lambda>x. sigmoid x / (\<Sum>y\<leftarrow>row. sigmoid y)) row) e"
    by (simp add: comp_def)
  finally show ?thesis .
qed

theorem smoothing_formula_witness:
  "smoothing_normalization (Tensor float32 [[Fin 0, Fin 0], [Fin 0, Fin 0]])
     = Inr (Tensor float32 [[1 / 2, 1 / 2], [1 / 2, 1 / 2]])"
  using smoothing_formula[of float32 "[[0, 0], [0, 0]]"] by (simp add: sigmoid_def)




section \<open>The per-step call\<close>

text \<open>
  C6. Whenever \<open>__call__\<close> returns, it returns a pair whose second component, the next
  state, is the alignments tensor just computed: the output of the normalization
  function on this step's energy. The previous alignment is not added to it or
  otherwise combined with it.
\<close>

theorem call_next_state:
  assumes "call self v_a query state = Inr (alignments, next_state)"
  shows "next_state = alignments
     \<and> (\<exists>processed_query processed_location_features energy.
           location_sensitive_score v_a processed_query processed_location_features (keys self)
             = Inr energy
           \<and> probability_fn self energy state = Inr alignments)"
proof -
  from assms obtain pq f plf energy
    where "location_sensitive_score v_a (expand_dims_1 pq) plf (keys self) = Inr energy"
      and "probability_fn self energy state = Inr alignments"
      and "next_state = alignments"
    by (auto simp: call_def bindE_def Let_def split: sum.splits)
  then show ?thesis by blast
qed

theorem call_next_state_witness:
  "\<exists>m a n. init float32_sigmoid example_hparams example_kernels 1 example_memory None False
              ''LocationSensitiveAttention'' = Inr m
     \<and> call m [1] example_query example_state = Inr (a, n) \<and> n = a
     \<and> a = Tensor float32 [[exp (tanh 2) / (exp (tanh 2) + exp (tanh 4)),
                             exp (tanh 4) / (exp (tanh 2) + exp (tanh 4))]]"
proof -
  let ?a = "Tensor float32 [[exp (tanh 2) / (exp (tanh 2) + exp (tanh 4)),
                            exp (tanh 4) / (exp (tanh 2) + exp (tanh (4::real)))]]"
  define m where "m = projr (init float32_sigmoid example_hparams example_kernels 1 example_memory
    None False ''LocationSensitiveAttention'')"
  have i: "init float32_sigmoid example_hparams example_kernels 1 example_memory None False
    ''LocationSensitiveAttention'' = Inr m"
    unfolding m_def by (simp add: example_defs init_defs upt_conv_Cons)
  have c: "call m [1] example_query example_state = Inr (?a, ?a)"
    unfolding m_def by (simp add: example_defs init_defs call_defs upt_conv_Cons exp_sum_ne0)
  from call_next_state[OF c] i c show ?thesis by blast
qed

lemma softmax_rows:
  assumes init: "init sg hp ks nu memory msl False name = Inr m"
    and call: "call m v_a query state = Inr (a, n)"
    and i: "i < length (val a)" and ne: "val a ! i \<noteq> []"
  shows "(\<forall>x \<in> set (val a ! i). 0 \<le> x) \<and> sum_list (val a ! i) = 1"
proof -
  from init_call_D[OF init call] obtain s e where r: "softmax e = Inr a" by auto
  let ?M = "map (map exp_score) (val e)"
  from normalize_D[OF r[unfolded softmax_as_normalize]]
  have ok: "\<forall>row \<in> set ?M. row = [] \<or> sum_list row \<noteq> 0"
    and a: "val a = map (\<lambda>row. map (\<lambda>x. x / sum_list row) row) ?M"
    by simp_all
  let ?row = "?M ! i"
  have iM: "i < length ?M" using i a by simp
  have ai: "val a ! i = map (\<lambda>x. x / sum_list ?row) ?row"
    unfolding a using iM by (rule nth_map)
  have rne: "?row \<noteq> []" using ne ai by auto
  have "?row \<in> set ?M" using iM by (rule nth_mem)
  with ok rne have s: "sum_list ?row \<noteq> 0" by blast
  have nn: "\<forall>x \<in> set ?row. 0 \<le> x" using iM by (auto simp: exp_score_nonneg)
  have pos: "0 < sum_list ?row" using nn s by (rule sum_list_pos_of_ne0)
  have "\<forall>x \<in> set (val a ! i). 0 \<le> x"
    unfolding ai using nn pos by auto
  moreover have "sum_list (val a ! i) = 1"
    unfolding ai using s by (rule row_sums_to_1)
  ultimately show ?thesis by blast
qed

section \<open>Masking and the exclusive normalization\<close>




text \<open>
  C4. For all valid inputs (float32 tensors whose shapes fit each other, at least one
  unit, at least one source position, memory lengths of at least 1 when they are
  supplied), a mechanism constructed with \<open>smoothing=False\<close> returns an alignment of
  shape \<open>[B, T]\<close> whose entries are non-negative and whose rows each sum to 1.
\<close>

theorem softmax_alignment_distribution:
  assumes "has_shape3 (val memory) B T D" and "dtype memory = float32"
    and "lengths_ok memory_sequence_length B"
    and "has_shape2 (val (W_memory_layer ks)) D n" and "dtype (W_memory_layer ks) = float32"
    and "has_shape2 (val (W_query_layer ks)) Q n" and "dtype (W_query_layer ks) = float32"
    and "has_shape3 (val (W_location_convolution ks)) (attention_kernel hp) 1 (attention_filters hp)"
    and "0 < attention_kernel hp" and "dtype (W_location_convolution ks) = float32"
    and "has_shape2 (W_location_layer ks) (attention_filters hp) n"
    and "has_shape2 (val query) B Q"
    and "has_shape2 (val state) B T" and "dtype state = float32"
    and "length v_a = n" and "0 < n" and "0 < T"
  shows "\<exists>self alignments. init sg hp ks n memory memory_sequence_length False name = Inr self
           \<and> call self v_a query state = Inr (Tensor float32 alignments, Tensor float32 alignments)
           \<and> has_shape2 alignments B T
           \<and> (\<forall>row \<in> set alignments. (\<forall>x \<in> set row. 0 \<le> x) \<and> sum_list row = 1)"
proof -
  from call_returns[OF assms(1-16), of False sg name] obtain m a
    where i: "init sg hp ks n memory memory_sequence_length False name = Inr m"
      and c: "call m v_a query state = Inr (Tensor float32 a, Tensor float32 a)"
      and sh: "has_shape2 a B T" by auto
  have "(\<forall>x \<in> set row. 0 \<le> x) \<and> sum_list row = 1" if "row \<in> set a" for row
  proof -
    from that obtain b where b: "b < length a" "row = a ! b" by (auto simp: in_set_conv_nth)
    have "length row = T" using sh that by (simp add: has_shape2_def)
    with \<open>0 < T\<close> have "row \<noteq> []" by auto
    with softmax_rows[OF i c, of b] b show ?thesis by simp
  qed
  with i c sh show ?thesis by blast
qed

theorem softmax_alignment_distribution_witness:
  "\<exists>self alignments. init float32_sigmoid example_hparams example_kernels 1 example_memory None
              False ''LocationSensitiveAttention'' = Inr self
     \<and> call self [1] example_query example_state
         = Inr (Tensor float32 alignments, Tensor float32 alignments)
     \<and> has_shape2 alignments 1 2
     \<and> (\<forall>row \<in> set alignments. (\<forall>x \<in> set row. 0 \<le> x) \<and> sum_list row = 1)"
  by (rule softmax_alignment_distribution[where D = 1 and Q = 1])
    (simp_all add: example_defs has_shape2_def has_shape3_def lengths_ok_def)

section \<open>The dtype of the scoring vector\<close>




section \<open>One scoring vector for each invocation\<close>




end
